theory Spec2Isabelle
  imports Main "HOL-Library.Sublist"
begin

section \<open>Python string operations used by the calendar service\<close>

text \<open>
  The service module \<^verbatim>\<open>googlecl/calendar/service.py\<close> is Python 2. Its strings are
  byte strings, modelled as \<^typ>\<open>string\<close>. The three string methods it calls are
  written out here: \<^verbatim>\<open>str.partition\<close>, \<^verbatim>\<open>str.split\<close> with a one-character separator,
  and \<^verbatim>\<open>str\<close> of a non-negative integer.
\<close>

text \<open>
  \<^verbatim>\<open>s.partition(sep)\<close> for a one-character separator: the part before the first
  occurrence, the separator, and the part after it; \<^verbatim>\<open>(s, '', '')\<close> when the separator
  does not occur.
\<close>

definition str_partition :: "char \<Rightarrow> string \<Rightarrow> string \<times> string \<times> string" where
  "str_partition sep s =
     (if sep \<in> set s
      then (takeWhile (\<lambda>c. c \<noteq> sep) s, [sep], tl (dropWhile (\<lambda>c. c \<noteq> sep) s))
      else (s, [], []))"

text \<open>
  \<^verbatim>\<open>s.split(sep)\<close> for a one-character separator. The result is never empty:
  \<^verbatim>\<open>''.split('/') == ['']\<close> and \<^verbatim>\<open>'a/'.split('/') == ['a', '']\<close>.
\<close>

fun str_split :: "char \<Rightarrow> string \<Rightarrow> string list" where
  "str_split sep [] = [[]]"
| "str_split sep (c # cs) =
     (if c = sep then [] # str_split sep cs
      else (case str_split sep cs of
              [] \<Rightarrow> [[c]]
            | w # ws \<Rightarrow> (c # w) # ws))"

text \<open>\<^verbatim>\<open>str(i)\<close> for the non-negative indices that \<^verbatim>\<open>enumerate\<close> produces.\<close>

definition digit_char :: "nat \<Rightarrow> char" where
  "digit_char d = char_of (48 + d)"

function str_nat :: "nat \<Rightarrow> string" where
  "str_nat n = (if n < 10 then [digit_char n] else str_nat (n div 10) @ [digit_char (n mod 10)])"
  by pat_completeness auto
termination
  by (relation "measure (\<lambda>n. n)") auto

declare str_nat.simps [simp del]

text \<open>
  \<^verbatim>\<open>int(s)\<close> for a byte string: surrounding whitespace is dropped, an optional sign
  follows, then at least one decimal digit and nothing else. Anything else raises
  \<^verbatim>\<open>ValueError\<close>, which is \<open>None\<close> here.
\<close>

definition is_space :: "char \<Rightarrow> bool" where
  "is_space c = (c \<in> set [CHR '' '', CHR 0x09, CHR 0x0A, CHR 0x0B, CHR 0x0C, CHR 0x0D])"

definition is_digit :: "char \<Rightarrow> bool" where
  "is_digit c = (c \<in> set ''0123456789'')"

definition str_strip :: "string \<Rightarrow> string" where
  "str_strip s = rev (dropWhile is_space (rev (dropWhile is_space s)))"

definition digits_value :: "string \<Rightarrow> nat" where
  "digits_value ds = foldl (\<lambda>a c. 10 * a + (of_char c - 48)) 0 ds"

definition parse_digits :: "string \<Rightarrow> int option" where
  "parse_digits ds =
     (if ds \<noteq> [] \<and> list_all is_digit ds then Some (int (digits_value ds)) else None)"

definition py_int :: "string \<Rightarrow> int option" where
  "py_int s =
     (case str_strip s of
        [] \<Rightarrow> None
      | c # cs \<Rightarrow>
          if c = CHR ''+'' then parse_digits cs
          else if c = CHR ''-'' then map_option uminus (parse_digits cs)
          else parse_digits (c # cs))"

text \<open>
  \<^verbatim>\<open>'%s' % x\<close> where \<^verbatim>\<open>x\<close> is a string or \<^verbatim>\<open>None\<close>: Python prints \<^verbatim>\<open>None\<close> as the
  four letters.
\<close>

definition fmt_s :: "string option \<Rightarrow> string" where
  "fmt_s x = (case x of None \<Rightarrow> ''None'' | Some s \<Rightarrow> s)"

text \<open>Truth value of a string-or-None: \<^verbatim>\<open>None\<close> and \<^verbatim>\<open>''\<close> are false.\<close>

definition truthy :: "string option \<Rightarrow> bool" where
  "truthy x = (case x of None \<Rightarrow> False | Some s \<Rightarrow> s \<noteq> [])"


section \<open>Data model\<close>

text \<open>
  An event entry as the module reads it. Only the attributes the module touches are kept:
  \<^item> \<open>title_text\<close> is \<^verbatim>\<open>e.title.text\<close> (\<open>None\<close> for an untitled event);
  \<^item> \<open>id_text\<close> is \<^verbatim>\<open>e.id.text\<close>;
  \<^item> \<open>recurrence\<close> is \<^verbatim>\<open>e.recurrence\<close>: \<open>None\<close> when the entry has no recurrence element,
    otherwise the rule text. The module only tests it for truth, and an element object
    is true whatever its text;
  \<^item> \<open>event_status\<close> is \<^verbatim>\<open>e.event_status.value\<close>;
  \<^item> \<open>original_event\<close> is the id of \<^verbatim>\<open>e.original_event\<close>, \<open>None\<close> when the entry has no
    such back-reference;
  \<^item> \<open>edit_link\<close> is the \<^verbatim>\<open>href\<close> of \<^verbatim>\<open>e.GetEditLink()\<close>, \<open>None\<close> when the entry has no
    edit link (the accessor returns \<^verbatim>\<open>None\<close> then, and reading \<^verbatim>\<open>.href\<close> raises).
  The title, id and status elements are taken to be present on every entry the server
  returns.
\<close>

record event =
  title_text :: "string option"
  id_text :: string
  recurrence :: "string option"
  event_status :: string
  original_event :: "string option"
  edit_link :: "string option"

text \<open>A calendar list entry; the module reads only \<^verbatim>\<open>cal.content.src\<close>.\<close>

record calendar_entry =
  content_src :: string

text \<open>
  \<^verbatim>\<open>gdata.calendar.service.CalendarEventQuery\<close>, reduced to the parameters the module
  sets. A parameter that was never assigned is \<open>None\<close>. The query is serialised by
  \<^verbatim>\<open>ToUri()\<close> of the client library; the model keeps the query itself.
\<close>

record CalendarEventQuery =
  user :: string
  text_query :: "string option"
  start_min :: "string option"
  start_max :: "string option"
  singleevents :: "string option"
  orderby :: "string option"
  sortorder :: "string option"
  max_results :: "int option"

text \<open>
  One item of a batch request feed, as \<^verbatim>\<open>AddInsert(entry, batch_id_string)\<close> appends it:
  the entry's content text, its quick-add flag, the batch id and the batch operation.
\<close>

record batch_item =
  content_text :: string
  quick_add :: string
  batch_id :: string
  batch_operation :: string

text \<open>The option values the task functions read.\<close>

record options =
  opt_date :: "string option"
  opt_title :: "string option"
  opt_query :: "string option"
  opt_cal :: "string option"
  opt_delimiter :: string

text \<open>The one attribute of the client object that the module's methods read.\<close>

record CalendarServiceCL =
  prompt_for_delete :: bool


section \<open>The outside world\<close>

text \<open>
  Every effect of the module is a call into a collaborator: the gdata client library,
  the shared \<^verbatim>\<open>googlecl.util\<close> base class, the terminal. A run is modelled by the list of
  such calls it has made so far, oldest first, and the collaborators by a function that
  answers a call given everything that was called before it. An answer of the wrong
  kind, or \<open>RFail\<close>, stands for the call raising an exception.
\<close>

datatype request =
    GetSingleEntry string string
  | GetEntries CalendarEventQuery "string option"
  | Delete string
  | BaseDelete "event list" string bool
  | ExecuteBatch "batch_item list" string
  | RawInput string
  | Print string

datatype response =
    RCalendar "calendar_entry option"
  | REvents "event list"
  | RLine string
  | ROk
  | RFail

datatype error =
    AttributeError
  | TypeError
  | ValueError
  | IndexError
  | EOFError
  | ServiceError

text \<open>
  What the module takes from its environment besides the answers to its calls:
  \<^item> \<open>today\<close> is \<^verbatim>\<open>datetime.datetime.today().strftime(util.DATE_FORMAT)\<close>;
  \<^item> \<open>unquote\<close> is \<^verbatim>\<open>urllib.unquote\<close>;
  \<^item> \<open>delete_by_default\<close> is the configuration flag of that name in section GENERAL;
  \<^item> \<open>list_style\<close> is the configured \<^verbatim>\<open>list_style\<close> option;
  \<^item> \<open>entry_to_string\<close> is \<^verbatim>\<open>util.entry_to_string\<close>.
\<close>

record env =
  respond :: "request list \<Rightarrow> request \<Rightarrow> response"
  today :: string
  unquote :: "string \<Rightarrow> string"
  delete_by_default :: bool
  list_style :: string
  entry_to_string :: "event \<Rightarrow> string list \<Rightarrow> string \<Rightarrow> string"

type_synonym trace = "request list"

type_synonym 'a result = "(error + 'a) \<times> trace"


section \<open>The date-range parser\<close>

text \<open>
  \<^verbatim>\<open>get_start_and_end(date)\<close>. The start is always a string; the end is a string or
  \<^verbatim>\<open>None\<close>.
\<close>

definition get_start_and_end :: "env \<Rightarrow> string option \<Rightarrow> string \<times> string option" where
  "get_start_and_end ev date =
     (if truthy date \<and> date \<noteq> Some '',''
      then (case str_partition CHR '','' (the date) of
              (start, junk, end') \<Rightarrow> (start, Some end'))
      else (today ev, None))"


section \<open>Calls into the collaborators\<close>

text \<open>
  Each call appends itself to the trace, whether it succeeds or raises, and reads its
  answer from the environment. \<^verbatim>\<open>print\<close> has no answer. \<^verbatim>\<open>GetSingleEntry\<close> and
  \<^verbatim>\<open>GetEntries\<close> are methods of the shared base class in \<^verbatim>\<open>googlecl.util\<close>, and
  \<^verbatim>\<open>ExecuteBatch\<close> and \<^verbatim>\<open>GDataService.Delete\<close> belong to the gdata client library; none
  of them is part of the module, so what they answer is left to the environment.
\<close>

text \<open>
  \<^verbatim>\<open>get_calendar(cal_name)\<close>: one \<^verbatim>\<open>GetSingleEntry\<close> call on the feed of all calendars;
  the entry, or \<^verbatim>\<open>None\<close> when no calendar matches.
\<close>

definition get_calendar :: "env \<Rightarrow> string \<Rightarrow> trace \<Rightarrow> (calendar_entry option) result" where
  "get_calendar ev cal_name tr =
     (let rq = GetSingleEntry ''/calendar/feeds/default/allcalendars/full'' cal_name in
      case respond ev tr rq of
        RCalendar c \<Rightarrow> (Inr c, tr @ [rq])
      | _ \<Rightarrow> (Inl ServiceError, tr @ [rq]))"

text \<open>\<^verbatim>\<open>self.GetEntries(query.ToUri(), title, converter=...)\<close>.\<close>

definition GetEntries_call ::
  "env \<Rightarrow> CalendarEventQuery \<Rightarrow> string option \<Rightarrow> trace \<Rightarrow> (event list) result" where
  "GetEntries_call ev q title tr =
     (let rq = GetEntries q title in
      case respond ev tr rq of
        REvents es \<Rightarrow> (Inr es, tr @ [rq])
      | _ \<Rightarrow> (Inl ServiceError, tr @ [rq]))"

text \<open>\<^verbatim>\<open>gdata.service.GDataService.Delete(self, href)\<close>.\<close>

definition GDataService_Delete :: "env \<Rightarrow> string \<Rightarrow> trace \<Rightarrow> unit result" where
  "GDataService_Delete ev href tr =
     (let rq = Delete href in
      case respond ev tr rq of
        ROk \<Rightarrow> (Inr (), tr @ [rq])
      | _ \<Rightarrow> (Inl ServiceError, tr @ [rq]))"

text \<open>
  Modelled from the spec: \<^verbatim>\<open>util.BaseServiceCL.Delete\<close>, the bulk delete of the shared
  base class, is not among the sources. The spec describes it as a single batched
  delete request that honours the confirmation flag; it is one opaque call here.
\<close>

definition BaseServiceCL_Delete ::
  "env \<Rightarrow> event list \<Rightarrow> string \<Rightarrow> bool \<Rightarrow> trace \<Rightarrow> unit result" where
  "BaseServiceCL_Delete ev entries entry_type delete_default tr =
     (let rq = BaseDelete entries entry_type delete_default in
      case respond ev tr rq of
        ROk \<Rightarrow> (Inr (), tr @ [rq])
      | _ \<Rightarrow> (Inl ServiceError, tr @ [rq]))"

text \<open>\<^verbatim>\<open>self.ExecuteBatch(request_feed, uri)\<close>, answered by the entries of the response feed.\<close>

definition ExecuteBatch_call ::
  "env \<Rightarrow> batch_item list \<Rightarrow> string \<Rightarrow> trace \<Rightarrow> (event list) result" where
  "ExecuteBatch_call ev request_feed uri tr =
     (let rq = ExecuteBatch request_feed uri in
      case respond ev tr rq of
        REvents es \<Rightarrow> (Inr es, tr @ [rq])
      | _ \<Rightarrow> (Inl ServiceError, tr @ [rq]))"

text \<open>\<^verbatim>\<open>raw_input(prompt)\<close>: a line from the terminal, or \<^verbatim>\<open>EOFError\<close>.\<close>

definition raw_input :: "env \<Rightarrow> string \<Rightarrow> trace \<Rightarrow> string result" where
  "raw_input ev prompt tr =
     (let rq = RawInput prompt in
      case respond ev tr rq of
        RLine l \<Rightarrow> (Inr l, tr @ [rq])
      | _ \<Rightarrow> (Inl EOFError, tr @ [rq]))"


section \<open>Listing events\<close>

text \<open>
  \<^verbatim>\<open>urllib.unquote(cal.content.src.split('/')[-3])\<close>: the third segment from the end,
  \<^verbatim>\<open>IndexError\<close> when there are fewer than three.
\<close>

definition feed_user :: "env \<Rightarrow> calendar_entry \<Rightarrow> error + string" where
  "feed_user ev cal =
     (let parts = str_split CHR ''/'' (content_src cal) in
      if length parts < 3 then Inl IndexError
      else Inr (unquote ev (parts ! (length parts - 3))))"

text \<open>
  Lines 192 to 203 of the source: the query that \<^verbatim>\<open>get_events\<close> builds once the user
  part of the feed is known.
\<close>

definition build_query ::
  "env \<Rightarrow> string \<Rightarrow> string option \<Rightarrow> string option \<Rightarrow> int \<Rightarrow> bool \<Rightarrow> CalendarEventQuery" where
  "build_query ev u query date max_res expand_recurrence =
     (case get_start_and_end ev date of
        (smin, smax) \<Rightarrow>
          \<lparr> user = u,
            text_query = query,
            start_min = (if smin \<noteq> [] then Some smin else None),
            start_max = (if truthy smax then smax else None),
            singleevents = (if expand_recurrence then Some ''true'' else None),
            orderby = Some ''starttime'',
            sortorder = Some ''ascend'',
            max_results = Some max_res \<rparr>)"

text \<open>
  \<^verbatim>\<open>get_events(date, title, query, calendar, max_results, expand_recurrence)\<close>. The
  defaults of the source are \<open>None\<close>, \<open>None\<close>, \<open>None\<close>, \<open>None\<close>, \<open>100\<close> and \<open>True\<close>. The result
  is \<open>None\<close> where the source leaves through its bare \<^verbatim>\<open>return\<close>.
\<close>

definition get_events ::
  "env \<Rightarrow> string option \<Rightarrow> string option \<Rightarrow> string option \<Rightarrow> string option \<Rightarrow> int \<Rightarrow> bool
     \<Rightarrow> trace \<Rightarrow> (event list option) result" where
  "get_events ev date title query calendar max_res expand_recurrence tr =
     (if truthy calendar then
        (case get_calendar ev (the calendar) tr of
           (Inl e, tr1) \<Rightarrow> (Inl e, tr1)
         | (Inr None, tr1) \<Rightarrow>
             (Inr None, tr1 @ [Print (''No calendar matching title '' @ the calendar @ ''.'')])
         | (Inr (Some cal), tr1) \<Rightarrow>
             (case feed_user ev cal of
                Inl e \<Rightarrow> (Inl e, tr1)
              | Inr u \<Rightarrow>
                  (case GetEntries_call ev
                          (build_query ev u query date max_res expand_recurrence) title tr1 of
                     (Inl e, tr2) \<Rightarrow> (Inl e, tr2)
                   | (Inr es, tr2) \<Rightarrow> (Inr (Some es), tr2))))
      else
        (case GetEntries_call ev
                (build_query ev ''default'' query date max_res expand_recurrence) title tr of
           (Inl e, tr2) \<Rightarrow> (Inl e, tr2)
         | (Inr es, tr2) \<Rightarrow> (Inr (Some es), tr2)))"


section \<open>Quick add\<close>

text \<open>
  \<^verbatim>\<open>request_feed.AddInsert(event, batch_id)\<close> for an entry with the given content text
  and quick-add value: the entry gets the batch id and the operation \<^verbatim>\<open>insert\<close> and is
  appended to the feed.
\<close>

definition AddInsert :: "batch_item list \<Rightarrow> string \<Rightarrow> string \<Rightarrow> string \<Rightarrow> batch_item list" where
  "AddInsert request_feed text qa batch_id_string =
     request_feed @
       [\<lparr> content_text = text, quick_add = qa,
          batch_id = batch_id_string, batch_operation = ''insert'' \<rparr>]"

text \<open>The \<^verbatim>\<open>for i, event_str in enumerate(quick_add_strings)\<close> loop, from index \<open>i\<close> on.\<close>

fun add_inserts :: "nat \<Rightarrow> string list \<Rightarrow> batch_item list \<Rightarrow> batch_item list" where
  "add_inserts i [] request_feed = request_feed"
| "add_inserts i (event_str # rest) request_feed =
     add_inserts (Suc i) rest
       (AddInsert request_feed event_str ''true'' (''insert-request'' @ str_nat i))"

definition quick_add_event ::
  "env \<Rightarrow> string list \<Rightarrow> string option \<Rightarrow> trace \<Rightarrow> (event list option) result" where
  "quick_add_event ev quick_add_strings calendar tr =
     (if truthy calendar then
        (case get_calendar ev (the calendar) tr of
           (Inl e, tr1) \<Rightarrow> (Inl e, tr1)
         | (Inr None, tr1) \<Rightarrow> (Inr None, tr1)
         | (Inr (Some cal), tr1) \<Rightarrow>
             (case ExecuteBatch_call ev (add_inserts 0 quick_add_strings [])
                     (content_src cal @ ''/batch'') tr1 of
                (Inl e, tr2) \<Rightarrow> (Inl e, tr2)
              | (Inr es, tr2) \<Rightarrow> (Inr (Some es), tr2)))
      else
        (case ExecuteBatch_call ev (add_inserts 0 quick_add_strings [])
                (''/calendar/feeds/default/private/full'' @ ''/batch'') tr of
           (Inl e, tr2) \<Rightarrow> (Inl e, tr2)
         | (Inr es, tr2) \<Rightarrow> (Inr (Some es), tr2)))"


section \<open>Deleting events\<close>

text \<open>
  The loop \<^verbatim>\<open>for d in delete_events: GDataService.Delete(self, d.GetEditLink().href)\<close>:
  one delete call per entry, in order, stopping at the first entry without an edit link
  and at the first call that raises.
\<close>

fun delete_each :: "env \<Rightarrow> event list \<Rightarrow> trace \<Rightarrow> unit result" where
  "delete_each ev [] tr = (Inr (), tr)"
| "delete_each ev (d # ds) tr =
     (case edit_link d of
        None \<Rightarrow> (Inl AttributeError, tr)
      | Some href \<Rightarrow>
          (case GDataService_Delete ev href tr of
             (Inl e, tr1) \<Rightarrow> (Inl e, tr1)
           | (Inr u, tr1) \<Rightarrow> delete_each ev ds tr1))"

text \<open>
  The test of the list comprehension in \<^verbatim>\<open>_batch_delete_recur\<close>:
  \<^verbatim>\<open>e.original_event and e.original_event.id == event.id.text.split('/')[-1]\<close>.
  The split of a string is never empty, so its last element exists.
\<close>

definition series_id :: "event \<Rightarrow> string" where
  "series_id event = last (str_split CHR ''/'' (id_text event))"

definition instance_of :: "event \<Rightarrow> event \<Rightarrow> bool" where
  "instance_of event e = (original_event e = Some (series_id event))"

text \<open>
  \<^verbatim>\<open>_batch_delete_recur(date, event, calendar)\<close> (an Isabelle name cannot start with an
  underscore). Iterating over the \<^verbatim>\<open>None\<close> that \<^verbatim>\<open>get_events\<close> may return raises
  \<^verbatim>\<open>TypeError\<close>.
\<close>

definition batch_delete_recur ::
  "env \<Rightarrow> string option \<Rightarrow> event \<Rightarrow> string option \<Rightarrow> trace \<Rightarrow> unit result" where
  "batch_delete_recur ev date event calendar tr =
     (case get_events ev date (title_text event) None calendar 100 True tr of
        (Inl e, tr1) \<Rightarrow> (Inl e, tr1)
      | (Inr None, tr1) \<Rightarrow> (Inl TypeError, tr1)
      | (Inr (Some single_events), tr1) \<Rightarrow>
          delete_each ev (filter (instance_of event) single_events) tr1)"

text \<open>The two list comprehensions at the start of \<^verbatim>\<open>delete_events\<close>.\<close>

definition single_events_of :: "event list \<Rightarrow> event list" where
  "single_events_of events =
     filter (\<lambda>e. recurrence e = None \<and> event_status e \<noteq> ''CANCELED'') events"

definition recurring_events_of :: "event list \<Rightarrow> event list" where
  "recurring_events_of events = filter (\<lambda>e. recurrence e \<noteq> None) events"

text \<open>The menu text, built once from the printable start and end of the range.\<close>

definition prompt_str_of :: "string \<Rightarrow> string \<Rightarrow> string" where
  "prompt_str_of start_date end_date =
     ''1) Instances between '' @ start_date @ '' and '' @ end_date @ [CHR 0x0A] @
     ''2) All events in this series'' @ [CHR 0x0A] @
     ''3) All events following '' @ end_date @ [CHR 0x0A] @
     ''4) Do not delete''"

definition delete_prompt_of :: "event \<Rightarrow> string \<Rightarrow> string" where
  "delete_prompt_of event prompt_str =
     ''Delete '' @ [CHR 0x22] @ fmt_s (title_text event) @ [CHR 0x22] @ ''?'' @ [CHR 0x0A] @
     prompt_str @ [CHR 0x0A]"

text \<open>
  The loop \<^verbatim>\<open>while delete_selection < 1 or delete_selection > 4\<close>. It asks again for as
  long as the answer is an integer out of range, so it need not return: \<open>None\<close> is the
  run that never leaves the loop. An answer that is no integer raises \<^verbatim>\<open>ValueError\<close>.
\<close>

partial_function (option) prompt_selection ::
  "env \<Rightarrow> string \<Rightarrow> int \<Rightarrow> trace \<Rightarrow> (int result) option" where
  "prompt_selection ev prompt delete_selection tr =
     (if delete_selection < 1 \<or> delete_selection > 4 then
        (case raw_input ev prompt tr of
           (Inl e, tr1) \<Rightarrow> Some (Inl e, tr1)
         | (Inr line, tr1) \<Rightarrow>
             (case py_int line of
                None \<Rightarrow> Some (Inl ValueError, tr1)
              | Some n \<Rightarrow> prompt_selection ev prompt n tr1))
      else Some (Inr delete_selection, tr))"

text \<open>The delete of a whole series: \<^verbatim>\<open>GDataService.Delete(self, event.GetEditLink().href)\<close>.\<close>

definition delete_series :: "env \<Rightarrow> event \<Rightarrow> trace \<Rightarrow> unit result" where
  "delete_series ev event tr =
     (case edit_link event of
        None \<Rightarrow> (Inl AttributeError, tr)
      | Some href \<Rightarrow> GDataService_Delete ev href tr)"

text \<open>
  The \<^verbatim>\<open>if\<close>/\<^verbatim>\<open>elif\<close> chain on the selection, lines 96 to 101. Selection 4 matches no
  branch and does nothing.
\<close>

definition apply_selection ::
  "env \<Rightarrow> int \<Rightarrow> string option \<Rightarrow> string \<Rightarrow> event \<Rightarrow> string option \<Rightarrow> trace \<Rightarrow> unit result" where
  "apply_selection ev delete_selection date start_date event calendar tr =
     (if delete_selection = 1 then batch_delete_recur ev date event calendar tr
      else if delete_selection = 2 then delete_series ev event tr
      else if delete_selection = 3 then batch_delete_recur ev (Some start_date) event calendar tr
      else (Inr (), tr))"

text \<open>The body of \<^verbatim>\<open>for event in recurring_events\<close>, lines 91 to 103.\<close>

definition delete_recurring_event ::
  "env \<Rightarrow> CalendarServiceCL \<Rightarrow> string option \<Rightarrow> string \<Rightarrow> string \<Rightarrow> string option \<Rightarrow> event
     \<Rightarrow> trace \<Rightarrow> (unit result) option" where
  "delete_recurring_event ev self date start_date prompt_str calendar event tr =
     (if prompt_for_delete self then
        (case prompt_selection ev (delete_prompt_of event prompt_str) 0 tr of
           None \<Rightarrow> None
         | Some (Inl e, tr1) \<Rightarrow> Some (Inl e, tr1)
         | Some (Inr delete_selection, tr1) \<Rightarrow>
             Some (apply_selection ev delete_selection date start_date event calendar tr1))
      else Some (delete_series ev event tr))"

fun delete_recurring_events ::
  "env \<Rightarrow> CalendarServiceCL \<Rightarrow> string option \<Rightarrow> string \<Rightarrow> string \<Rightarrow> string option
     \<Rightarrow> event list \<Rightarrow> trace \<Rightarrow> (unit result) option" where
  "delete_recurring_events ev self date start_date prompt_str calendar [] tr = Some (Inr (), tr)"
| "delete_recurring_events ev self date start_date prompt_str calendar (event # rest) tr =
     (case delete_recurring_event ev self date start_date prompt_str calendar event tr of
        None \<Rightarrow> None
      | Some (Inl e, tr1) \<Rightarrow> Some (Inl e, tr1)
      | Some (Inr u, tr1) \<Rightarrow>
          delete_recurring_events ev self date start_date prompt_str calendar rest tr1)"

text \<open>
  \<^verbatim>\<open>delete_events(events, date, calendar)\<close>. The events are what \<^verbatim>\<open>get_events\<close>
  returned, so they may be \<^verbatim>\<open>None\<close>, and iterating over \<^verbatim>\<open>None\<close> raises \<^verbatim>\<open>TypeError\<close>.
\<close>

definition delete_events ::
  "env \<Rightarrow> CalendarServiceCL \<Rightarrow> event list option \<Rightarrow> string option \<Rightarrow> string option
     \<Rightarrow> trace \<Rightarrow> (unit result) option" where
  "delete_events ev self events date calendar tr =
     (case events of
        None \<Rightarrow> Some (Inl TypeError, tr)
      | Some evs \<Rightarrow>
          (let single_events = single_events_of evs;
               recurring_events = recurring_events_of evs;
               delete_default = delete_by_default ev
           in case BaseServiceCL_Delete ev single_events ''event'' delete_default tr of
                (Inl e, tr1) \<Rightarrow> Some (Inl e, tr1)
              | (Inr u, tr1) \<Rightarrow>
                  (case get_start_and_end ev date of
                     (start_date, end_date) \<Rightarrow>
                       (let end_date' =
                              (if \<not> truthy end_date then ''the distant future''
                               else the end_date);
                            start_date' =
                              (if start_date = [] then ''the dawn of time'' else start_date);
                            prompt_str = prompt_str_of start_date' end_date'
                        in delete_recurring_events ev self date start_date' prompt_str
                             calendar recurring_events tr1))))"


section \<open>The tasks\<close>

text \<open>
  \<^verbatim>\<open>_run_list\<close>: the style list is computed before the loop over the entries, and the
  loop raises \<^verbatim>\<open>TypeError\<close> when the entries are \<^verbatim>\<open>None\<close>.
\<close>

definition run_list :: "env \<Rightarrow> options \<Rightarrow> string list \<Rightarrow> trace \<Rightarrow> unit result" where
  "run_list ev opts args tr =
     (case get_events ev (opt_date opts) (opt_title opts) (opt_query opts) (opt_cal opts)
             100 True tr of
        (Inl e, tr1) \<Rightarrow> (Inl e, tr1)
      | (Inr entries, tr1) \<Rightarrow>
          (let style_list =
                 (case args of
                    a # rest \<Rightarrow> str_split CHR '','' a
                  | [] \<Rightarrow> str_split CHR '','' (list_style ev))
           in case entries of
                None \<Rightarrow> (Inl TypeError, tr1)
              | Some es \<Rightarrow>
                  (Inr (),
                   tr1 @ map (\<lambda>e. Print (entry_to_string ev e style_list (opt_delimiter opts)))
                           es)))"

text \<open>
  \<^verbatim>\<open>_run_add\<close>: the result of \<^verbatim>\<open>quick_add_event\<close> is dropped; the function has no
  \<^verbatim>\<open>return\<close>.
\<close>

definition run_add :: "env \<Rightarrow> options \<Rightarrow> string list \<Rightarrow> trace \<Rightarrow> unit result" where
  "run_add ev opts args tr =
     (case quick_add_event ev args (opt_cal opts) tr of
        (Inl e, tr1) \<Rightarrow> (Inl e, tr1)
      | (Inr added, tr1) \<Rightarrow> (Inr (), tr1))"

text \<open>\<^verbatim>\<open>_run_delete\<close>.\<close>

definition run_delete ::
  "env \<Rightarrow> CalendarServiceCL \<Rightarrow> options \<Rightarrow> trace \<Rightarrow> (unit result) option" where
  "run_delete ev self opts tr =
     (case get_events ev (opt_date opts) (opt_title opts) (opt_query opts) (opt_cal opts)
             100 False tr of
        (Inl e, tr1) \<Rightarrow> Some (Inl e, tr1)
      | (Inr events, tr1) \<Rightarrow>
          delete_events ev self events (opt_date opts) (opt_cal opts) tr1)"


section \<open>Concrete entries and a concrete environment\<close>

text \<open>
  A weekly series, three entries that a query expanded by instance may return (an
  instance of the series, an instance of another series, an entry without a
  back-reference), and a cancelled one-off event.
\<close>

definition weekly :: event where
  "weekly =
     \<lparr> title_text = Some ''Standup'',
       id_text = ''http://www.google.com/calendar/feeds/default/private/full/abc123'',
       recurrence = Some ''RRULE:FREQ=WEEKLY'',
       event_status = ''CONFIRMED'',
       original_event = None,
       edit_link = Some ''/calendar/feeds/default/private/full/abc123/63'' \<rparr>"

definition occurrence :: event where
  "occurrence =
     \<lparr> title_text = Some ''Standup'',
       id_text = ''http://www.google.com/calendar/feeds/default/private/full/abc123_20100607'',
       recurrence = None,
       event_status = ''CONFIRMED'',
       original_event = Some ''abc123'',
       edit_link = Some ''/calendar/feeds/default/private/full/abc123_20100607/63'' \<rparr>"

definition foreign_occurrence :: event where
  "foreign_occurrence =
     \<lparr> title_text = Some ''Standup'',
       id_text = ''http://www.google.com/calendar/feeds/default/private/full/zzz999_20100608'',
       recurrence = None,
       event_status = ''CONFIRMED'',
       original_event = Some ''zzz999'',
       edit_link = Some ''/calendar/feeds/default/private/full/zzz999_20100608/63'' \<rparr>"

definition one_off :: event where
  "one_off =
     \<lparr> title_text = Some ''Standup'',
       id_text = ''http://www.google.com/calendar/feeds/default/private/full/solo777'',
       recurrence = None,
       event_status = ''CONFIRMED'',
       original_event = None,
       edit_link = Some ''/calendar/feeds/default/private/full/solo777/63'' \<rparr>"

definition cancelled_one_off :: event where
  "cancelled_one_off =
     \<lparr> title_text = Some ''Lunch'',
       id_text = ''http://www.google.com/calendar/feeds/default/private/full/gone555'',
       recurrence = None,
       event_status = ''CANCELED'',
       original_event = None,
       edit_link = Some ''/calendar/feeds/default/private/full/gone555/63'' \<rparr>"

definition work_calendar :: calendar_entry where
  "work_calendar =
     \<lparr> content_src =
         ''http://www.google.com/calendar/feeds/work%40group.calendar.google.com/private/full'' \<rparr>"

text \<open>
  A server that knows one calendar besides the primary one, named \<open>Work\<close>, answers every
  event query with the three entries above, accepts every delete and every batch, and a
  user who answers every prompt with \<open>3\<close>.
\<close>

definition demo_respond :: "request list \<Rightarrow> request \<Rightarrow> response" where
  "demo_respond tr rq =
     (case rq of
        GetSingleEntry uri cal_name \<Rightarrow>
          RCalendar (if cal_name = ''Work'' then Some work_calendar else None)
      | GetEntries q title \<Rightarrow> REvents [occurrence, foreign_occurrence, one_off]
      | Delete href \<Rightarrow> ROk
      | BaseDelete entries entry_type delete_default \<Rightarrow> ROk
      | ExecuteBatch request_feed uri \<Rightarrow> REvents []
      | RawInput prompt \<Rightarrow> RLine ''3''
      | Print line \<Rightarrow> ROk)"

definition demo_env :: env where
  "demo_env =
     \<lparr> respond = demo_respond,
       today = ''2010-06-15'',
       unquote = (\<lambda>s. s),
       delete_by_default = False,
       list_style = ''title'',
       entry_to_string = (\<lambda>e style_list delimiter. fmt_s (title_text e)) \<rparr>"


text \<open>
  A second instance of the weekly series, a second series, and a server that returns
  both instances of the weekly series among its entries.
\<close>

definition later_occurrence :: event where
  "later_occurrence =
     \<lparr> title_text = Some ''Standup'',
       id_text = ''http://www.google.com/calendar/feeds/default/private/full/abc123_20100614'',
       recurrence = None,
       event_status = ''CONFIRMED'',
       original_event = Some ''abc123'',
       edit_link = Some ''/calendar/feeds/default/private/full/abc123_20100614/63'' \<rparr>"

definition monthly :: event where
  "monthly =
     \<lparr> title_text = Some ''Standup'',
       id_text = ''http://www.google.com/calendar/feeds/default/private/full/mon456'',
       recurrence = Some ''RRULE:FREQ=MONTHLY'',
       event_status = ''CANCELED'',
       original_event = None,
       edit_link = Some ''/calendar/feeds/default/private/full/mon456/63'' \<rparr>"

definition busy_respond :: "request list \<Rightarrow> request \<Rightarrow> response" where
  "busy_respond tr rq =
     (case rq of
        GetEntries q title \<Rightarrow>
          REvents [occurrence, foreign_occurrence, later_occurrence, one_off]
      | _ \<Rightarrow> demo_respond tr rq)"

definition busy_env :: env where
  "busy_env = demo_env \<lparr> respond := busy_respond \<rparr>"


section \<open>What it means that the server accepts a sequence of deletes\<close>

text \<open>
  This is a notion for stating results, not part of the module: the delete calls for
  the addresses \<open>hs\<close>, issued one after the other from the trace \<open>tr\<close> on, are all
  answered with success.
\<close>

fun accepted :: "env \<Rightarrow> trace \<Rightarrow> string list \<Rightarrow> bool" where
  "accepted ev tr [] = True"
| "accepted ev tr (h # hs) =
     (respond ev tr (Delete h) = ROk \<and> accepted ev (tr @ [Delete h]) hs)"


section \<open>Facts about the string operations\<close>

lemma str_partition_at:
  "sep \<notin> set s \<Longrightarrow> str_partition sep (s @ sep # e) = (s, [sep], e)"
  by (simp add: str_partition_def takeWhile_tail dropWhile_append)

lemma str_split_not_empty: "str_split c s \<noteq> []"
  by (induction s) (auto split: list.splits)

lemma str_split_no_sep: "c \<notin> set s \<Longrightarrow> str_split c s = [s]"
  by (induction s) auto

lemma str_split_sep_two: "c \<in> set s \<Longrightarrow> tl (str_split c s) \<noteq> []"
  by (induction s) (auto simp add: str_split_not_empty str_split_no_sep split: list.splits)

lemma last_str_split_Cons:
  "last (str_split c (x # xs)) =
     (if c \<in> set xs then last (str_split c xs) else if x = c then xs else x # xs)"
  using str_split_sep_two[of c xs] str_split_not_empty[of c xs]
  by (auto simp add: str_split_no_sep split: list.splits)

text \<open>The last element of a split is what follows the last separator.\<close>

lemma last_str_split: "last (str_split c s) = rev (takeWhile (\<lambda>x. x \<noteq> c) (rev s))"
proof (induction s)
  case Nil
  show ?case by simp
next
  case (Cons x xs)
  show ?case
  proof (cases "c \<in> set xs")
    case True
    then have "takeWhile (\<lambda>x. x \<noteq> c) (rev xs @ [x]) = takeWhile (\<lambda>x. x \<noteq> c) (rev xs)"
      by (simp add: takeWhile_append1)
    then show ?thesis
      using True Cons by (simp add: last_str_split_Cons del: str_split.simps)
  next
    case False
    then have "takeWhile (\<lambda>x. x \<noteq> c) (rev xs @ [x]) =
                 rev xs @ takeWhile (\<lambda>x. x \<noteq> c) [x]"
      by (intro takeWhile_append2) auto
    then show ?thesis
      using False by (auto simp add: last_str_split_Cons simp del: str_split.simps)
  qed
qed

lemma series_id_last_segment:
  "series_id event = rev (takeWhile (\<lambda>x. x \<noteq> CHR ''/'') (rev (id_text event)))"
  by (simp add: series_id_def last_str_split)

lemma of_char_digit_char: "d < 10 \<Longrightarrow> of_char (digit_char d) - 48 = (d::nat)"
  by (simp add: digit_char_def)

lemma digits_value_snoc: "digits_value (xs @ [c]) = 10 * digits_value xs + (of_char c - 48)"
  by (simp add: digits_value_def)

text \<open>Reading the decimal digits of \<open>str_nat n\<close> gives \<open>n\<close> back, so \<open>str_nat\<close> is injective.\<close>

lemma digits_value_str_nat: "digits_value (str_nat n) = n"
proof (induction n rule: str_nat.induct)
  case (1 n)
  show ?case
  proof (cases "n < 10")
    case True
    then show ?thesis
      by (simp add: str_nat.simps[of n] digits_value_def of_char_digit_char)
  next
    case False
    then show ?thesis
      using 1 by (simp add: str_nat.simps[of n] digits_value_snoc of_char_digit_char)
  qed
qed

lemma str_nat_inject: "str_nat m = str_nat n \<Longrightarrow> m = n"
  by (metis digits_value_str_nat)


section \<open>The date-range parser: results\<close>

text \<open>
  Claim C5. For the absent input and for the input that is exactly one comma,
  \<^verbatim>\<open>get_start_and_end\<close> returns the same pair: the start is today's date in the fixed
  format and the end is \<^verbatim>\<open>None\<close>.
\<close>

theorem get_start_and_end_default:
  "get_start_and_end ev None = (today ev, None) \<and>
   get_start_and_end ev (Some '','') = (today ev, None)"
  by (simp add: get_start_and_end_def truthy_def)

text \<open>
  What the parser returns for a range with one empty side: the present side as that
  bound and the empty string on the absent side, whichever side that is.
\<close>

lemma get_start_and_end_one_sided:
  "(s \<noteq> [] \<and> CHR '','' \<notin> set s \<longrightarrow>
      get_start_and_end ev (Some (s @ '','')) = (s, Some [])) \<and>
   (e \<noteq> [] \<longrightarrow> get_start_and_end ev (Some ('','' @ e)) = ([], Some e))"
  using str_partition_at[of "CHR '',''" s "[]"] str_partition_at[of "CHR '',''" "[]" e]
  by (auto simp add: get_start_and_end_def truthy_def)

text \<open>
  Claim C4 against the code. For \<^verbatim>\<open>'2010-06-01,'\<close> the end that comes back is the empty
  string that \<^verbatim>\<open>partition\<close> leaves after the comma, and not \<^verbatim>\<open>None\<close> as the claim and
  the function's own description of its result say. The second example of the claim
  holds: \<^verbatim>\<open>',2010-06-20'\<close> gives the empty string and \<^verbatim>\<open>2010-06-20\<close>.
\<close>

theorem get_start_and_end_trailing_comma_empty_end:
  "get_start_and_end demo_env (Some ''2010-06-01,'') = (''2010-06-01'', Some []) \<and>
   get_start_and_end demo_env (Some ''2010-06-01,'') \<noteq> (''2010-06-01'', None) \<and>
   get_start_and_end demo_env (Some '',2010-06-20'') = ([], Some ''2010-06-20'')"
  by (simp add: get_start_and_end_def truthy_def str_partition_def)


section \<open>Deleting events: results\<close>

lemma accepted_snoc:
  "accepted ev tr (hs @ [h]) =
     (accepted ev tr hs \<and> respond ev (tr @ map Delete hs) (Delete h) = ROk)"
  by (induction hs arbitrary: tr) auto

lemma accepted_always:
  "(\<And>tr' h. respond ev tr' (Delete h) = ROk) \<Longrightarrow> accepted ev tr hs"
  by (induction hs arbitrary: tr) auto

lemma GDataService_Delete_result:
  "GDataService_Delete ev h tr =
     (if respond ev tr (Delete h) = ROk then Inr () else Inl ServiceError, tr @ [Delete h])"
  by (simp add: GDataService_Delete_def Let_def split: response.splits)

text \<open>
  The per-entry delete loop, exactly. It issues delete calls for the edit links of the
  first \<open>n\<close> entries of its list, one call per entry and in order, and it ends in one of
  three ways: every call was accepted and the list is exhausted; every call was accepted
  and entry \<open>n\<close> has no edit link; or the last call was refused, after all earlier ones
  were accepted.
\<close>

lemma delete_each_exact:
  "\<exists>n hs.
     snd (delete_each ev ds tr) = tr @ map Delete hs \<and>
     map Some hs = map edit_link (take n ds) \<and> n \<le> length ds \<and>
     (fst (delete_each ev ds tr) = Inr () \<and> n = length ds \<and> accepted ev tr hs
      \<or> fst (delete_each ev ds tr) = Inl AttributeError \<and> n < length ds \<and>
          edit_link (ds ! n) = None \<and> accepted ev tr hs
      \<or> fst (delete_each ev ds tr) = Inl ServiceError \<and> hs \<noteq> [] \<and>
          accepted ev tr (butlast hs) \<and>
          respond ev (tr @ map Delete (butlast hs)) (Delete (last hs)) \<noteq> ROk)"
proof (induction ds arbitrary: tr)
  case Nil
  have "snd (delete_each ev [] tr) = tr @ map Delete [] \<and>
        map Some [] = map edit_link (take 0 []) \<and> (0::nat) \<le> length ([]::event list) \<and>
        fst (delete_each ev [] tr) = Inr () \<and> (0::nat) = length ([]::event list) \<and>
        accepted ev tr []"
    by simp
  then show ?case by blast
next
  case (Cons d ds)
  show ?case
  proof (cases "edit_link d")
    case None
    then have "snd (delete_each ev (d # ds) tr) = tr @ map Delete [] \<and>
               map Some [] = map edit_link (take 0 (d # ds)) \<and> 0 \<le> length (d # ds) \<and>
               fst (delete_each ev (d # ds) tr) = Inl AttributeError \<and> 0 < length (d # ds) \<and>
               edit_link ((d # ds) ! 0) = None \<and> accepted ev tr []"
      by simp
    then show ?thesis by blast
  next
    case (Some href)
    show ?thesis
    proof (cases "respond ev tr (Delete href) = ROk")
      case False
      then have "snd (delete_each ev (d # ds) tr) = tr @ map Delete [href] \<and>
               map Some [href] = map edit_link (take 1 (d # ds)) \<and> 1 \<le> length (d # ds) \<and>
               fst (delete_each ev (d # ds) tr) = Inl ServiceError \<and> [href] \<noteq> [] \<and>
               accepted ev tr (butlast [href]) \<and>
               respond ev (tr @ map Delete (butlast [href])) (Delete (last [href])) \<noteq> ROk"
        using Some by (simp add: GDataService_Delete_result)
      then show ?thesis by blast
    next
      case True
      let ?tr1 = "tr @ [Delete href]"
      have eq: "delete_each ev (d # ds) tr = delete_each ev ds ?tr1"
        using Some True by (simp add: GDataService_Delete_result)
      from Cons.IH[of ?tr1] obtain n hs where
        tr: "snd (delete_each ev ds ?tr1) = ?tr1 @ map Delete hs"
        and links: "map Some hs = map edit_link (take n ds)"
        and n: "n \<le> length ds"
        and how: "fst (delete_each ev ds ?tr1) = Inr () \<and> n = length ds \<and> accepted ev ?tr1 hs
          \<or> fst (delete_each ev ds ?tr1) = Inl AttributeError \<and> n < length ds \<and>
              edit_link (ds ! n) = None \<and> accepted ev ?tr1 hs
          \<or> fst (delete_each ev ds ?tr1) = Inl ServiceError \<and> hs \<noteq> [] \<and>
              accepted ev ?tr1 (butlast hs) \<and>
              respond ev (?tr1 @ map Delete (butlast hs)) (Delete (last hs)) \<noteq> ROk"
        by blast
      have a: "snd (delete_each ev (d # ds) tr) = tr @ map Delete (href # hs)"
        using eq tr by simp
      have b: "map Some (href # hs) = map edit_link (take (Suc n) (d # ds))"
        using links Some by simp
      have c: "Suc n \<le> length (d # ds)"
        using n by simp
      have d: "fst (delete_each ev (d # ds) tr) = Inr () \<and> Suc n = length (d # ds) \<and>
                 accepted ev tr (href # hs)
          \<or> fst (delete_each ev (d # ds) tr) = Inl AttributeError \<and> Suc n < length (d # ds) \<and>
              edit_link ((d # ds) ! Suc n) = None \<and> accepted ev tr (href # hs)
          \<or> fst (delete_each ev (d # ds) tr) = Inl ServiceError \<and> href # hs \<noteq> [] \<and>
              accepted ev tr (butlast (href # hs)) \<and>
              respond ev (tr @ map Delete (butlast (href # hs))) (Delete (last (href # hs)))
                \<noteq> ROk"
        using how eq True by auto
      show ?thesis
        using a b c d by blast
    qed
  qed
qed

text \<open>When every entry has an edit link and the server accepts every delete, all are deleted.\<close>

lemma delete_each_all:
  assumes "\<forall>e\<in>set ds. edit_link e \<noteq> None"
    and "\<And>tr' h. respond ev tr' (Delete h) = ROk"
  shows "delete_each ev ds tr = (Inr (), tr @ map (\<lambda>e. Delete (the (edit_link e))) ds)"
  using assms(1)
proof (induction ds arbitrary: tr)
  case Nil
  show ?case by simp
next
  case (Cons d ds)
  then obtain href where "edit_link d = Some href"
    by auto
  then show ?case
    using Cons assms(2) by (simp add: GDataService_Delete_result)
qed

text \<open>Without the prompt, the loop over the recurring events is the per-entry delete loop.\<close>

lemma delete_recurring_events_no_prompt:
  "\<not> prompt_for_delete self \<Longrightarrow>
   delete_recurring_events ev self date sd ps cal evs tr = Some (delete_each ev evs tr)"
  by (induction evs arbitrary: tr)
     (simp_all add: delete_recurring_event_def delete_series_def
        split: option.splits prod.splits sum.splits)

lemma BaseServiceCL_Delete_result:
  "BaseServiceCL_Delete ev es k d tr =
     (if respond ev tr (BaseDelete es k d) = ROk then Inr () else Inl ServiceError,
      tr @ [BaseDelete es k d])"
  by (simp add: BaseServiceCL_Delete_def Let_def split: response.splits)

text \<open>
  Claim C9. With \<^verbatim>\<open>prompt_for_delete\<close> false, \<^verbatim>\<open>delete_events\<close> always returns. After
  the bulk delete of the single events, everything it issues is delete calls against the
  edit links of the recurring events themselves, one per event and in input order, with
  no prompt and no query. The run ends in exactly one of four ways: the bulk delete was
  refused and nothing more is issued; every recurring event was deleted; the next
  recurring event has no edit link; or the last delete was refused. In particular, when
  the bulk delete is accepted, every recurring event has an edit link and the server
  accepts every delete, each recurring event gets its one delete call and the run
  returns normally.
\<close>

theorem delete_events_no_prompt_series_only:
  assumes "\<not> prompt_for_delete self"
  shows "\<exists>r n hs.
           delete_events ev self (Some events) date calendar tr =
             Some (r, tr @ [BaseDelete (single_events_of events) ''event'' (delete_by_default ev)]
                        @ map Delete hs) \<and>
           map Some hs = map edit_link (take n (recurring_events_of events)) \<and>
           n \<le> length (recurring_events_of events) \<and>
           (r = Inr () \<longrightarrow> n = length (recurring_events_of events)) \<and>
           (respond ev tr
                (BaseDelete (single_events_of events) ''event'' (delete_by_default ev)) \<noteq> ROk \<and>
              r = Inl ServiceError \<and> hs = []
            \<or> respond ev tr
                (BaseDelete (single_events_of events) ''event'' (delete_by_default ev)) = ROk \<and>
              (r = Inr () \<and> n = length (recurring_events_of events) \<and>
                 accepted ev
                   (tr @ [BaseDelete (single_events_of events) ''event'' (delete_by_default ev)])
                   hs
               \<or> r = Inl AttributeError \<and> n < length (recurring_events_of events) \<and>
                 edit_link (recurring_events_of events ! n) = None \<and>
                 accepted ev
                   (tr @ [BaseDelete (single_events_of events) ''event'' (delete_by_default ev)])
                   hs
               \<or> r = Inl ServiceError \<and> hs \<noteq> [] \<and>
                 accepted ev
                   (tr @ [BaseDelete (single_events_of events) ''event'' (delete_by_default ev)])
                   (butlast hs) \<and>
                 respond ev
                   (tr @ [BaseDelete (single_events_of events) ''event'' (delete_by_default ev)]
                       @ map Delete (butlast hs))
                   (Delete (last hs)) \<noteq> ROk)) \<and>
           (respond ev tr
                (BaseDelete (single_events_of events) ''event'' (delete_by_default ev)) = ROk \<and>
              (\<forall>e\<in>set (recurring_events_of events). edit_link e \<noteq> None) \<and>
              (\<forall>tr' h. respond ev tr' (Delete h) = ROk) \<longrightarrow>
            r = Inr () \<and> map Some hs = map edit_link (recurring_events_of events))"
proof -
  let ?b = "BaseDelete (single_events_of events) ''event'' (delete_by_default ev)"
  let ?R = "recurring_events_of events"
  show ?thesis
  proof (cases "respond ev tr ?b = ROk")
    case False
    then have "delete_events ev self (Some events) date calendar tr =
                 Some (Inl ServiceError, tr @ [?b] @ map Delete [])"
      by (simp add: delete_events_def Let_def BaseServiceCL_Delete_result)
    then show ?thesis
      using False
      by (intro exI[of _ "Inl ServiceError"] exI[of _ 0] exI[of _ "[]"]) simp
  next
    case True
    let ?tr1 = "tr @ [?b]"
    let ?r = "fst (delete_each ev ?R ?tr1)"
    obtain n hs where
      t: "snd (delete_each ev ?R ?tr1) = ?tr1 @ map Delete hs"
      and links: "map Some hs = map edit_link (take n ?R)"
      and n: "n \<le> length ?R"
      and how: "?r = Inr () \<and> n = length ?R \<and> accepted ev ?tr1 hs
        \<or> ?r = Inl AttributeError \<and> n < length ?R \<and> edit_link (?R ! n) = None \<and>
            accepted ev ?tr1 hs
        \<or> ?r = Inl ServiceError \<and> hs \<noteq> [] \<and> accepted ev ?tr1 (butlast hs) \<and>
            respond ev (?tr1 @ map Delete (butlast hs)) (Delete (last hs)) \<noteq> ROk"
      using delete_each_exact[of ev ?R ?tr1] by blast
    have "delete_events ev self (Some events) date calendar tr = Some (delete_each ev ?R ?tr1)"
      using True assms
      by (simp add: delete_events_def Let_def BaseServiceCL_Delete_result
            delete_recurring_events_no_prompt split: prod.splits)
    then have run: "delete_events ev self (Some events) date calendar tr =
                      Some (?r, tr @ [?b] @ map Delete hs)"
      using t by (metis append.assoc prod.collapse)
    have full: "?r = Inr () \<longrightarrow> n = length ?R"
      using how by auto
    have good: "(\<forall>e\<in>set ?R. edit_link e \<noteq> None) \<and> (\<forall>tr' h. respond ev tr' (Delete h) = ROk)
                  \<longrightarrow> ?r = Inr () \<and> map Some hs = map edit_link ?R"
    proof
      assume a: "(\<forall>e\<in>set ?R. edit_link e \<noteq> None) \<and> (\<forall>tr' h. respond ev tr' (Delete h) = ROk)"
      then have "delete_each ev ?R ?tr1 =
                   (Inr (), ?tr1 @ map (\<lambda>e. Delete (the (edit_link e))) ?R)"
        by (intro delete_each_all) auto
      then have r: "?r = Inr ()"
        by simp
      then have "n = length ?R"
        using full by simp
      then show "?r = Inr () \<and> map Some hs = map edit_link ?R"
        using r links by simp
    qed
    have ways: "respond ev tr ?b \<noteq> ROk \<and> ?r = Inl ServiceError \<and> hs = []
        \<or> respond ev tr ?b = ROk \<and>
          (?r = Inr () \<and> n = length ?R \<and> accepted ev ?tr1 hs
           \<or> ?r = Inl AttributeError \<and> n < length ?R \<and> edit_link (?R ! n) = None \<and>
             accepted ev ?tr1 hs
           \<or> ?r = Inl ServiceError \<and> hs \<noteq> [] \<and> accepted ev ?tr1 (butlast hs) \<and>
             respond ev (tr @ [?b] @ map Delete (butlast hs)) (Delete (last hs)) \<noteq> ROk)"
      using True how by simp
    have good': "respond ev tr ?b = ROk \<and> (\<forall>e\<in>set ?R. edit_link e \<noteq> None) \<and>
                 (\<forall>tr' h. respond ev tr' (Delete h) = ROk) \<longrightarrow>
                 ?r = Inr () \<and> map Some hs = map edit_link ?R"
      using good by simp
    show ?thesis
    proof (intro exI conjI)
      show "delete_events ev self (Some events) date calendar tr =
              Some (?r, tr @ [?b] @ map Delete hs)"
        by (rule run)
      show "map Some hs = map edit_link (take n ?R)"
        by (rule links)
      show "n \<le> length ?R"
        by (rule n)
      show "?r = Inr () \<longrightarrow> n = length ?R"
        by (rule full)
      show "respond ev tr ?b \<noteq> ROk \<and> ?r = Inl ServiceError \<and> hs = []
        \<or> respond ev tr ?b = ROk \<and>
          (?r = Inr () \<and> n = length ?R \<and> accepted ev ?tr1 hs
           \<or> ?r = Inl AttributeError \<and> n < length ?R \<and> edit_link (?R ! n) = None \<and>
             accepted ev ?tr1 hs
           \<or> ?r = Inl ServiceError \<and> hs \<noteq> [] \<and> accepted ev ?tr1 (butlast hs) \<and>
             respond ev (tr @ [?b] @ map Delete (butlast hs)) (Delete (last hs)) \<noteq> ROk)"
        by (rule ways)
      show "respond ev tr ?b = ROk \<and> (\<forall>e\<in>set ?R. edit_link e \<noteq> None) \<and>
                 (\<forall>tr' h. respond ev tr' (Delete h) = ROk) \<longrightarrow>
                 ?r = Inr () \<and> map Some hs = map edit_link ?R"
        by (rule good')
    qed
  qed
qed

text \<open>
  The concrete run for Claim C9: two series (one of them cancelled), a one-off event and
  a cancelled one-off event, deleted without prompting.
\<close>

theorem delete_events_no_prompt_series_only_witness:
  "\<not> prompt_for_delete \<lparr>prompt_for_delete = False\<rparr> \<and>
   recurring_events_of [weekly, one_off, monthly, cancelled_one_off] = [weekly, monthly] \<and>
   delete_events demo_env \<lparr>prompt_for_delete = False\<rparr>
       (Some [weekly, one_off, monthly, cancelled_one_off]) (Some ''2010-06-01,2010-06-20'')
       None [] =
     Some (Inr (), [BaseDelete [one_off] ''event'' False,
                    Delete ''/calendar/feeds/default/private/full/abc123/63'',
                    Delete ''/calendar/feeds/default/private/full/mon456/63''])"
proof -
  let ?E = "[weekly, one_off, monthly, cancelled_one_off]"
  have h: "\<not> prompt_for_delete \<lparr>prompt_for_delete = False\<rparr>"
    by simp
  have se: "single_events_of ?E = [one_off]"
    by (simp add: single_events_of_def weekly_def one_off_def monthly_def cancelled_one_off_def)
  have re: "recurring_events_of ?E = [weekly, monthly]"
    by (simp add: recurring_events_of_def weekly_def one_off_def monthly_def
          cancelled_one_off_def)
  have dbd: "delete_by_default demo_env = False"
    by (simp add: demo_env_def)
  have bulk: "respond demo_env [] (BaseDelete [one_off] ''event'' False) = ROk"
    by (simp add: demo_env_def demo_respond_def)
  have ok: "\<forall>tr' h. respond demo_env tr' (Delete h) = ROk"
    by (simp add: demo_env_def demo_respond_def)
  have links: "map edit_link [weekly, monthly] =
                 [Some ''/calendar/feeds/default/private/full/abc123/63'',
                  Some ''/calendar/feeds/default/private/full/mon456/63'']"
    by (simp add: weekly_def monthly_def)
  obtain r n hs where
    run: "delete_events demo_env \<lparr>prompt_for_delete = False\<rparr> (Some ?E)
            (Some ''2010-06-01,2010-06-20'') None [] =
          Some (r, [] @ [BaseDelete (single_events_of ?E) ''event''
                           (delete_by_default demo_env)] @ map Delete hs)"
    and good: "respond demo_env []
                 (BaseDelete (single_events_of ?E) ''event'' (delete_by_default demo_env)) =
                 ROk \<and>
               (\<forall>e\<in>set (recurring_events_of ?E). edit_link e \<noteq> None) \<and>
               (\<forall>tr' h. respond demo_env tr' (Delete h) = ROk) \<longrightarrow>
               r = Inr () \<and> map Some hs = map edit_link (recurring_events_of ?E)"
    using delete_events_no_prompt_series_only[OF h, of demo_env ?E
            "Some ''2010-06-01,2010-06-20''" None "[]"]
    by blast
  have present: "\<forall>e\<in>set (recurring_events_of ?E). edit_link e \<noteq> None"
    unfolding re by (simp add: weekly_def monthly_def)
  have all: "r = Inr () \<and> map Some hs = map edit_link [weekly, monthly]"
    using good bulk ok present by (simp add: se re dbd)
  then have "hs = [''/calendar/feeds/default/private/full/abc123/63'',
                   ''/calendar/feeds/default/private/full/mon456/63'']"
    using links by auto
  then show ?thesis
    using h re run all by (simp add: se dbd)
qed

text \<open>
  Claim C2, as stated, fails: a cancelled event without a recurrence rule is in neither
  list, so the two lists do not cover the input, and the status of an event does decide
  whether it is a single event.
\<close>

theorem partition_misses_cancelled_one_off:
  "set (single_events_of [cancelled_one_off]) \<union> set (recurring_events_of [cancelled_one_off])
     \<noteq> set [cancelled_one_off]"
  by (simp add: single_events_of_def recurring_events_of_def cancelled_one_off_def)

text \<open>
  Claim C2, amended. For every list of events, the single events and the recurring
  events are disjoint; the recurring events are exactly the input events that have a
  recurrence rule; the single events are exactly the input events that have no recurrence
  rule and whose status is not \<^verbatim>\<open>CANCELED\<close>; so together they are the input without its
  cancelled events that have no recurrence rule.
\<close>

theorem delete_events_partition:
  "set (single_events_of events) \<inter> set (recurring_events_of events) = {} \<and>
   set (recurring_events_of events) = {e \<in> set events. recurrence e \<noteq> None} \<and>
   set (single_events_of events) =
     {e \<in> set events. recurrence e = None \<and> event_status e \<noteq> ''CANCELED''} \<and>
   set (single_events_of events) \<union> set (recurring_events_of events) =
     set events - {e. recurrence e = None \<and> event_status e = ''CANCELED''}"
  by (auto simp add: single_events_of_def recurring_events_of_def)


section \<open>Listing events: results\<close>

lemma get_calendar_trace:
  "snd (get_calendar ev n tr) =
     tr @ [GetSingleEntry ''/calendar/feeds/default/allcalendars/full'' n]"
  by (simp add: get_calendar_def Let_def split: response.splits)

text \<open>Whatever happens, \<^verbatim>\<open>get_events\<close> only adds to the trace, and it adds no delete call.\<close>

lemma get_events_trace:
  "\<exists>q. snd (get_events ev date title query calendar m x tr) = tr @ q \<and>
       (\<forall>h. Delete h \<notin> set q)"
  by (auto simp add: get_events_def get_calendar_def GetEntries_call_def Let_def
        split: response.splits prod.splits sum.splits option.splits)

text \<open>
  Claim C8. A listing call with the date \<^verbatim>\<open>2010-06-01,2010-06-20\<close>, no calendar name and
  recurrence expansion on issues exactly one request: the event query for user
  \<^verbatim>\<open>default\<close> with start-min 2010-06-01, start-max 2010-06-20, single events \<^verbatim>\<open>true\<close>,
  ordered by start time, ascending. Title, text query and result cap are passed through.
\<close>

theorem get_events_june_query:
  "snd (get_events ev (Some ''2010-06-01,2010-06-20'') title query None max_res True tr) =
     tr @ [GetEntries
             \<lparr> user = ''default'', text_query = query,
               start_min = Some ''2010-06-01'', start_max = Some ''2010-06-20'',
               singleevents = Some ''true'', orderby = Some ''starttime'',
               sortorder = Some ''ascend'', max_results = Some max_res \<rparr>
             title]"
  by (simp add: get_events_def truthy_def GetEntries_call_def Let_def build_query_def
        get_start_and_end_def str_partition_def split: response.splits)

text \<open>
  Claim C10. The empty string as calendar name behaves as \<^verbatim>\<open>None\<close> does:
  \<^verbatim>\<open>get_events\<close> issues the single event query for user \<^verbatim>\<open>default\<close>, \<^verbatim>\<open>quick_add_event\<close>
  issues the single batch against the feed of the primary calendar, and neither looks a
  calendar up, so neither can reach the branch for a calendar that does not resolve.
\<close>

theorem empty_calendar_name_is_primary:
  "get_events ev date title query (Some []) max_res expand tr =
     get_events ev date title query None max_res expand tr \<and>
   snd (get_events ev date title query None max_res expand tr) =
     tr @ [GetEntries (build_query ev ''default'' query date max_res expand) title] \<and>
   user (build_query ev ''default'' query date max_res expand) = ''default'' \<and>
   quick_add_event ev strs (Some []) tr = quick_add_event ev strs None tr \<and>
   snd (quick_add_event ev strs None tr) =
     tr @ [ExecuteBatch (add_inserts 0 strs []) ''/calendar/feeds/default/private/full/batch'']"
  by (simp add: get_events_def quick_add_event_def truthy_def GetEntries_call_def
        ExecuteBatch_call_def build_query_def Let_def split: response.splits prod.splits)

text \<open>
  What the two methods do for a calendar name that does not resolve: \<^verbatim>\<open>get_events\<close>
  prints the diagnostic and returns \<^verbatim>\<open>None\<close>; \<^verbatim>\<open>quick_add_event\<close> returns \<^verbatim>\<open>None\<close> and
  sends no batch.
\<close>

lemma get_events_unresolved:
  assumes "truthy calendar"
    and "respond ev tr
           (GetSingleEntry ''/calendar/feeds/default/allcalendars/full'' (the calendar)) =
         RCalendar None"
  shows "get_events ev date title query calendar max_res expand tr =
           (Inr None,
            tr @ [GetSingleEntry ''/calendar/feeds/default/allcalendars/full'' (the calendar),
                  Print (''No calendar matching title '' @ the calendar @ ''.'')])"
  using assms by (simp add: get_events_def get_calendar_def Let_def)

lemma quick_add_event_unresolved:
  assumes "truthy calendar"
    and "respond ev tr
           (GetSingleEntry ''/calendar/feeds/default/allcalendars/full'' (the calendar)) =
         RCalendar None"
  shows "quick_add_event ev strs calendar tr =
           (Inr None,
            tr @ [GetSingleEntry ''/calendar/feeds/default/allcalendars/full'' (the calendar)])"
  using assms by (simp add: quick_add_event_def get_calendar_def Let_def)

text \<open>
  Claim C3 against the code. For the calendar name \<^verbatim>\<open>Home\<close>, which the server does not
  know, \<^verbatim>\<open>get_events\<close> prints the diagnostic and returns \<^verbatim>\<open>None\<close>, not an empty list;
  the list task, which iterates over the result, then raises \<^verbatim>\<open>TypeError\<close>, and so does
  the delete task.
\<close>

theorem get_events_unresolved_returns_None:
  "get_events demo_env None None None (Some ''Home'') 100 True [] =
     (Inr None,
      [GetSingleEntry ''/calendar/feeds/default/allcalendars/full'' ''Home'',
       Print ''No calendar matching title Home.'']) \<and>
   run_list demo_env
       \<lparr> opt_date = None, opt_title = None, opt_query = None, opt_cal = Some ''Home'',
         opt_delimiter = '','' \<rparr> [] [] =
     (Inl TypeError,
      [GetSingleEntry ''/calendar/feeds/default/allcalendars/full'' ''Home'',
       Print ''No calendar matching title Home.'']) \<and>
   run_delete demo_env \<lparr>prompt_for_delete = True\<rparr>
       \<lparr> opt_date = None, opt_title = Some ''Standup'', opt_query = None,
         opt_cal = Some ''Home'', opt_delimiter = '','' \<rparr> [] =
     Some (Inl TypeError,
      [GetSingleEntry ''/calendar/feeds/default/allcalendars/full'' ''Home'',
       Print ''No calendar matching title Home.''])"
  by (simp add: run_list_def run_delete_def delete_events_def get_events_def truthy_def
        get_calendar_def demo_env_def demo_respond_def)


section \<open>Quick add: results\<close>

text \<open>The loop over the strings appends one item per string, numbered from \<open>i\<close>.\<close>

lemma add_inserts_eq:
  "add_inserts i strs feed =
     feed @ map (\<lambda>(k, s). \<lparr> content_text = s, quick_add = ''true'',
                             batch_id = ''insert-request'' @ str_nat k,
                             batch_operation = ''insert'' \<rparr>) (enumerate i strs)"
  by (induction strs arbitrary: i feed) (simp_all add: AddInsert_def)

lemma batch_ids_enumerate:
  "map batch_id
     (map (\<lambda>(k, s). \<lparr> content_text = s, quick_add = ''true'',
                       batch_id = ''insert-request'' @ str_nat k,
                       batch_operation = ''insert'' \<rparr>) (enumerate i strs)) =
   map (\<lambda>k. ''insert-request'' @ str_nat k) [i..<i + length strs]"
  by (simp add: comp_def case_prod_beta flip: map_fst_enumerate)

lemma distinct_batch_ids: "distinct (map (\<lambda>k. ''insert-request'' @ str_nat k) [i..<j])"
  by (simp add: distinct_map inj_on_def str_nat_inject)

text \<open>
  Claim C7. Once the target calendar is resolved (no name was given, or the lookup
  answered with a calendar), \<^verbatim>\<open>quick_add_event\<close> issues exactly one batch request, to
  the \<^verbatim>\<open>/batch\<close> address of that calendar's feed. Its feed has one insert item per input
  string, in input order; item \<open>i\<close> carries string \<open>i\<close> as content, the quick-add value
  \<^verbatim>\<open>true\<close> and the batch id \<^verbatim>\<open>insert-request\<close> followed by \<open>i\<close> in decimal;
  the batch ids are pairwise different.
\<close>

theorem quick_add_event_one_batch:
  assumes "truthy calendar \<longrightarrow>
             respond ev tr
               (GetSingleEntry ''/calendar/feeds/default/allcalendars/full'' (the calendar)) =
             RCalendar (Some cal)"
  shows "\<exists>feed.
           snd (quick_add_event ev strs calendar tr) =
             tr @ (if truthy calendar
                   then [GetSingleEntry ''/calendar/feeds/default/allcalendars/full''
                           (the calendar)]
                   else [])
                @ [ExecuteBatch feed
                     ((if truthy calendar then content_src cal
                       else ''/calendar/feeds/default/private/full'') @ ''/batch'')] \<and>
           feed = map (\<lambda>(i, s). \<lparr> content_text = s, quick_add = ''true'',
                                   batch_id = ''insert-request'' @ str_nat i,
                                   batch_operation = ''insert'' \<rparr>) (enumerate 0 strs) \<and>
           length feed = length strs \<and>
           (\<forall>i<length strs.
              feed ! i = \<lparr> content_text = strs ! i, quick_add = ''true'',
                           batch_id = ''insert-request'' @ str_nat i,
                           batch_operation = ''insert'' \<rparr>) \<and>
           distinct (map batch_id feed)"
proof -
  let ?item = "\<lambda>(i, s). \<lparr> content_text = s, quick_add = ''true'',
                            batch_id = ''insert-request'' @ str_nat i,
                            batch_operation = ''insert'' \<rparr>"
  let ?feed = "map ?item (enumerate 0 strs)"
  have feed: "add_inserts 0 strs [] = ?feed"
    by (simp add: add_inserts_eq)
  have run: "snd (quick_add_event ev strs calendar tr) =
             tr @ (if truthy calendar
                   then [GetSingleEntry ''/calendar/feeds/default/allcalendars/full''
                           (the calendar)]
                   else [])
                @ [ExecuteBatch ?feed
                     ((if truthy calendar then content_src cal
                       else ''/calendar/feeds/default/private/full'') @ ''/batch'')]"
    using assms
    by (simp add: quick_add_event_def get_calendar_def ExecuteBatch_call_def Let_def feed
          split: response.splits)
  have len: "length ?feed = length strs"
    by simp
  have nth: "\<forall>i<length strs.
              ?feed ! i = \<lparr> content_text = strs ! i, quick_add = ''true'',
                           batch_id = ''insert-request'' @ str_nat i,
                           batch_operation = ''insert'' \<rparr>"
    by (simp add: nth_enumerate_eq)
  have dist: "distinct (map batch_id ?feed)"
    by (simp only: batch_ids_enumerate distinct_batch_ids)
  show ?thesis
    using run len nth dist by blast
qed

text \<open>The concrete run for Claim C7: two strings added to the calendar \<open>Work\<close>.\<close>

theorem quick_add_event_one_batch_witness:
  "truthy (Some ''Work'') \<and>
   respond demo_env []
     (GetSingleEntry ''/calendar/feeds/default/allcalendars/full'' (the (Some ''Work''))) =
     RCalendar (Some work_calendar) \<and>
   snd (quick_add_event demo_env [''Lunch with Tony on Tuesday at 12:00'', ''Dinner at 7pm'']
          (Some ''Work'') []) =
     [GetSingleEntry ''/calendar/feeds/default/allcalendars/full'' ''Work'',
      ExecuteBatch
        [\<lparr> content_text = ''Lunch with Tony on Tuesday at 12:00'', quick_add = ''true'',
            batch_id = ''insert-request0'', batch_operation = ''insert'' \<rparr>,
         \<lparr> content_text = ''Dinner at 7pm'', quick_add = ''true'',
            batch_id = ''insert-request1'', batch_operation = ''insert'' \<rparr>]
        ''http://www.google.com/calendar/feeds/work%40group.calendar.google.com/private/full/batch'']"
proof -
  have t: "truthy (Some ''Work'')"
    by (simp add: truthy_def)
  have c: "respond demo_env []
      (GetSingleEntry ''/calendar/feeds/default/allcalendars/full'' (the (Some ''Work''))) =
      RCalendar (Some work_calendar)"
    by (simp add: demo_env_def demo_respond_def)
  have h: "truthy (Some ''Work'') \<longrightarrow>
      respond demo_env []
        (GetSingleEntry ''/calendar/feeds/default/allcalendars/full'' (the (Some ''Work''))) =
      RCalendar (Some work_calendar)"
    using c by simp
  have s0: "str_nat 0 = ''0''" and s1: "str_nat (Suc 0) = ''1''"
    by code_simp+
  show ?thesis
    using t c quick_add_event_one_batch[OF h,
            of "[''Lunch with Tony on Tuesday at 12:00'', ''Dinner at 7pm'']"]
    by (simp add: s0 s1 enumerate_eq_zip work_calendar_def upt_conv_Cons)
qed


section \<open>Deleting events: the choices\<close>

text \<open>
  Claim C6. Choice 1 runs the query again, expanded by instance and for the original
  date string, and then issues delete calls only: for the edit links of the returned
  entries whose back-reference to an original event is present and equals the last
  segment of the series' id, one call per entry and in order. The query itself adds no
  delete call. The run ends in exactly one of these ways: the query raised or returned
  no list, and nothing is deleted; every matching instance was deleted; the next
  matching instance has no edit link; or the last delete was refused. In particular,
  when every matching instance has an edit link and the server accepts every delete,
  all matching instances, and only they, are deleted and the run returns normally.
\<close>

theorem apply_selection_1_only_matching:
  "\<exists>r q hs n.
     apply_selection ev 1 date start_date event calendar tr = (r, tr @ q @ map Delete hs) \<and>
     snd (get_events ev date (title_text event) None calendar 100 True tr) = tr @ q \<and>
     (\<forall>h. Delete h \<notin> set q) \<and>
     map Some hs =
       map edit_link
         (take n (filter (\<lambda>e. original_event e =
                               Some (last (str_split CHR ''/'' (id_text event))))
                    (case fst (get_events ev date (title_text event) None calendar 100 True tr) of
                       Inr (Some single_events) \<Rightarrow> single_events
                     | _ \<Rightarrow> []))) \<and>
     (r = Inr () \<longrightarrow>
        (\<exists>single_events.
           fst (get_events ev date (title_text event) None calendar 100 True tr) =
             Inr (Some single_events) \<and>
           map Some hs =
             map edit_link
               (filter (\<lambda>e. original_event e =
                               Some (last (str_split CHR ''/'' (id_text event))))
                  single_events))) \<and>
     ((\<exists>e. fst (get_events ev date (title_text event) None calendar 100 True tr) = Inl e \<and>
           r = Inl e \<and> hs = [])
      \<or> fst (get_events ev date (title_text event) None calendar 100 True tr) = Inr None \<and>
        r = Inl TypeError \<and> hs = []
      \<or> (\<exists>single_events.
           fst (get_events ev date (title_text event) None calendar 100 True tr) =
             Inr (Some single_events) \<and>
           (r = Inr () \<and>
              n = length (filter (\<lambda>e. original_event e =
                                        Some (last (str_split CHR ''/'' (id_text event))))
                            single_events) \<and>
              accepted ev (tr @ q) hs
            \<or> r = Inl AttributeError \<and>
              n < length (filter (\<lambda>e. original_event e =
                                        Some (last (str_split CHR ''/'' (id_text event))))
                            single_events) \<and>
              edit_link (filter (\<lambda>e. original_event e =
                                        Some (last (str_split CHR ''/'' (id_text event))))
                            single_events ! n) = None \<and>
              accepted ev (tr @ q) hs
            \<or> r = Inl ServiceError \<and> hs \<noteq> [] \<and> accepted ev (tr @ q) (butlast hs) \<and>
              respond ev (tr @ q @ map Delete (butlast hs)) (Delete (last hs)) \<noteq> ROk))) \<and>
     (\<forall>single_events.
        fst (get_events ev date (title_text event) None calendar 100 True tr) =
          Inr (Some single_events) \<and>
        (\<forall>e\<in>set (filter (\<lambda>e. original_event e =
                                 Some (last (str_split CHR ''/'' (id_text event))))
                     single_events). edit_link e \<noteq> None) \<and>
        (\<forall>tr' h. respond ev tr' (Delete h) = ROk) \<longrightarrow>
        r = Inr () \<and>
        map Some hs =
          map edit_link
            (filter (\<lambda>e. original_event e =
                            Some (last (str_split CHR ''/'' (id_text event))))
               single_events))"
proof -
  let ?g = "get_events ev date (title_text event) None calendar 100 True tr"
  let ?m = "\<lambda>e. original_event e = Some (last (str_split CHR ''/'' (id_text event)))"
  have m: "instance_of event = ?m"
    by (simp add: instance_of_def series_id_def fun_eq_iff)
  obtain x tr1 where g: "?g = (x, tr1)"
    by (cases ?g)
  obtain q where q: "tr1 = tr @ q" "\<forall>h. Delete h \<notin> set q"
    using get_events_trace[of ev date "title_text event" None calendar 100 True tr] g
    by auto
  have sel: "apply_selection ev 1 date start_date event calendar tr =
               batch_delete_recur ev date event calendar tr"
    by (simp add: apply_selection_def)
  have gq: "snd ?g = tr @ q"
    using g q(1) by simp
  show ?thesis
  proof (cases x)
    case (Inl e)
    have run: "apply_selection ev 1 date start_date event calendar tr =
                 (Inl e, tr @ q @ map Delete [])"
      using g Inl q(1) sel by (simp add: batch_delete_recur_def)
    show ?thesis
      using run gq q(2) g Inl
      by (intro exI[of _ "Inl e"] exI[of _ q] exI[of _ "[]"] exI[of _ 0]) simp
  next
    case (Inr res)
    show ?thesis
    proof (cases res)
      case None
      have run: "apply_selection ev 1 date start_date event calendar tr =
                   (Inl TypeError, tr @ q @ map Delete [])"
        using g Inr None q(1) sel by (simp add: batch_delete_recur_def)
      show ?thesis
        using run gq q(2) g Inr None
        by (intro exI[of _ "Inl TypeError"] exI[of _ q] exI[of _ "[]"] exI[of _ 0]) simp
    next
      case (Some es)
      let ?M = "filter ?m es"
      let ?r = "fst (delete_each ev ?M tr1)"
      have fg: "fst ?g = Inr (Some es)"
        using g Inr Some by simp
      obtain n hs where
        t: "snd (delete_each ev ?M tr1) = tr1 @ map Delete hs"
        and links: "map Some hs = map edit_link (take n ?M)"
        and n: "n \<le> length ?M"
        and how: "?r = Inr () \<and> n = length ?M \<and> accepted ev tr1 hs
          \<or> ?r = Inl AttributeError \<and> n < length ?M \<and> edit_link (?M ! n) = None \<and>
              accepted ev tr1 hs
          \<or> ?r = Inl ServiceError \<and> hs \<noteq> [] \<and> accepted ev tr1 (butlast hs) \<and>
              respond ev (tr1 @ map Delete (butlast hs)) (Delete (last hs)) \<noteq> ROk"
        using delete_each_exact[of ev ?M tr1] by blast
      have "apply_selection ev 1 date start_date event calendar tr = delete_each ev ?M tr1"
        using g Inr Some sel m by (simp add: batch_delete_recur_def)
      then have run: "apply_selection ev 1 date start_date event calendar tr =
                        (?r, tr @ q @ map Delete hs)"
        using t q(1) by (metis append.assoc prod.collapse)
      have full: "?r = Inr () \<longrightarrow> map Some hs = map edit_link ?M"
        using how links by auto
      have good: "(\<forall>e\<in>set ?M. edit_link e \<noteq> None) \<and>
                  (\<forall>tr' h. respond ev tr' (Delete h) = ROk) \<longrightarrow>
                  ?r = Inr () \<and> map Some hs = map edit_link ?M"
      proof
        assume a: "(\<forall>e\<in>set ?M. edit_link e \<noteq> None) \<and>
                   (\<forall>tr' h. respond ev tr' (Delete h) = ROk)"
        then have "delete_each ev ?M tr1 =
                     (Inr (), tr1 @ map (\<lambda>e. Delete (the (edit_link e))) ?M)"
          by (intro delete_each_all) auto
        then have "?r = Inr ()"
          by simp
        then show "?r = Inr () \<and> map Some hs = map edit_link ?M"
          using full by simp
      qed
      show ?thesis
      proof (intro exI conjI)
        show "apply_selection ev 1 date start_date event calendar tr =
                (?r, tr @ q @ map Delete hs)"
          by (rule run)
        show "snd ?g = tr @ q"
          by (rule gq)
        show "\<forall>h. Delete h \<notin> set q"
          by (rule q(2))
        show "map Some hs =
                map edit_link
                  (take n (filter ?m (case fst ?g of
                                        Inr (Some single_events) \<Rightarrow> single_events
                                      | _ \<Rightarrow> [])))"
          using links fg by simp
        show "?r = Inr () \<longrightarrow>
                (\<exists>single_events. fst ?g = Inr (Some single_events) \<and>
                   map Some hs = map edit_link (filter ?m single_events))"
          using full fg by blast
        show "(\<exists>e. fst ?g = Inl e \<and> ?r = Inl e \<and> hs = [])
          \<or> fst ?g = Inr None \<and> ?r = Inl TypeError \<and> hs = []
          \<or> (\<exists>single_events. fst ?g = Inr (Some single_events) \<and>
               (?r = Inr () \<and> n = length (filter ?m single_events) \<and> accepted ev (tr @ q) hs
                \<or> ?r = Inl AttributeError \<and> n < length (filter ?m single_events) \<and>
                  edit_link (filter ?m single_events ! n) = None \<and> accepted ev (tr @ q) hs
                \<or> ?r = Inl ServiceError \<and> hs \<noteq> [] \<and> accepted ev (tr @ q) (butlast hs) \<and>
                  respond ev (tr @ q @ map Delete (butlast hs)) (Delete (last hs)) \<noteq> ROk))"
          using how fg q(1) by auto
        show "\<forall>single_events.
                fst ?g = Inr (Some single_events) \<and>
                (\<forall>e\<in>set (filter ?m single_events). edit_link e \<noteq> None) \<and>
                (\<forall>tr' h. respond ev tr' (Delete h) = ROk) \<longrightarrow>
                ?r = Inr () \<and> map Some hs = map edit_link (filter ?m single_events)"
          using good fg by auto
      qed
    qed
  qed
qed

text \<open>
  The concrete run for Claim C6: of the four entries the server returns, the two
  instances of the series are deleted, and the instance of another series and the entry
  without a back-reference are not.
\<close>

theorem apply_selection_1_only_matching_witness:
  "fst (get_events busy_env (Some ''2010-06-01,2010-06-20'') (title_text weekly) None None
          100 True []) =
     Inr (Some [occurrence, foreign_occurrence, later_occurrence, one_off]) \<and>
   filter (\<lambda>e. original_event e = Some (last (str_split CHR ''/'' (id_text weekly))))
     [occurrence, foreign_occurrence, later_occurrence, one_off] =
     [occurrence, later_occurrence] \<and>
   apply_selection busy_env 1 (Some ''2010-06-01,2010-06-20'') ''2010-06-01'' weekly None [] =
     (Inr (),
      [GetEntries
         \<lparr> user = ''default'', text_query = None,
           start_min = Some ''2010-06-01'', start_max = Some ''2010-06-20'',
           singleevents = Some ''true'', orderby = Some ''starttime'',
           sortorder = Some ''ascend'', max_results = Some 100 \<rparr>
         (Some ''Standup''),
       Delete ''/calendar/feeds/default/private/full/abc123_20100607/63'',
       Delete ''/calendar/feeds/default/private/full/abc123_20100614/63''])"
proof -
  let ?es = "[occurrence, foreign_occurrence, later_occurrence, one_off]"
  let ?m = "\<lambda>e. original_event e = Some (last (str_split CHR ''/'' (id_text weekly)))"
  let ?q = "GetEntries
         \<lparr> user = ''default'', text_query = None,
           start_min = Some ''2010-06-01'', start_max = Some ''2010-06-20'',
           singleevents = Some ''true'', orderby = Some ''starttime'',
           sortorder = Some ''ascend'', max_results = Some 100 \<rparr>
         (Some ''Standup'')"
  have tt: "title_text weekly = Some ''Standup''"
    by (simp add: weekly_def)
  have g: "get_events busy_env (Some ''2010-06-01,2010-06-20'') (title_text weekly) None None
             100 True [] = (Inr (Some ?es), [?q])"
    by (simp add: get_events_def truthy_def GetEntries_call_def build_query_def
          get_start_and_end_def str_partition_def tt busy_env_def busy_respond_def demo_env_def)
  have f: "filter ?m ?es = [occurrence, later_occurrence]"
    by (simp add: weekly_def occurrence_def foreign_occurrence_def later_occurrence_def
          one_off_def)
  have ok: "\<forall>tr' h. respond busy_env tr' (Delete h) = ROk"
    by (simp add: busy_env_def busy_respond_def demo_env_def demo_respond_def)
  have links: "map edit_link [occurrence, later_occurrence] =
                 [Some ''/calendar/feeds/default/private/full/abc123_20100607/63'',
                  Some ''/calendar/feeds/default/private/full/abc123_20100614/63'']"
    by (simp add: occurrence_def later_occurrence_def)
  have present: "\<forall>e\<in>set (filter ?m ?es). edit_link e \<noteq> None"
    unfolding f by (simp add: occurrence_def later_occurrence_def)
  obtain r q hs where
    run: "apply_selection busy_env 1 (Some ''2010-06-01,2010-06-20'') ''2010-06-01'' weekly
            None [] = (r, [] @ q @ map Delete hs)"
    and q: "snd (get_events busy_env (Some ''2010-06-01,2010-06-20'') (title_text weekly)
                   None None 100 True []) = [] @ q"
    and good: "\<forall>single_events.
        fst (get_events busy_env (Some ''2010-06-01,2010-06-20'') (title_text weekly)
               None None 100 True []) = Inr (Some single_events) \<and>
        (\<forall>e\<in>set (filter ?m single_events). edit_link e \<noteq> None) \<and>
        (\<forall>tr' h. respond busy_env tr' (Delete h) = ROk) \<longrightarrow>
        r = Inr () \<and> map Some hs = map edit_link (filter ?m single_events)"
    using apply_selection_1_only_matching[of busy_env "Some ''2010-06-01,2010-06-20''"
        "''2010-06-01''" weekly None "[]"]
    by blast
  have fg: "fst (get_events busy_env (Some ''2010-06-01,2010-06-20'') (title_text weekly)
                   None None 100 True []) = Inr (Some ?es)"
    using g by simp
  have "r = Inr () \<and> map Some hs = map edit_link (filter ?m ?es)"
    using good fg present ok by blast
  then have r: "r = Inr ()"
    and hs: "hs = [''/calendar/feeds/default/private/full/abc123_20100607/63'',
                   ''/calendar/feeds/default/private/full/abc123_20100614/63'']"
    using links unfolding f by auto
  have "q = [?q]"
    using q g by simp
  then show ?thesis
    using g f run r hs by simp
qed

text \<open>
  Claim C1 against the code. The series \<open>weekly\<close> is deleted for the range from 2010-06-01
  to 2010-06-20 and the user answers 3. The menu offers all events following 2010-06-20,
  but the query that selects the instances to delete starts at 2010-06-01, the start of
  the original range, and has no end: choice 3 passes the start of the range to the
  helper, not its end.
\<close>

theorem delete_choice_3_starts_at_range_start:
  "delete_events demo_env \<lparr>prompt_for_delete = True\<rparr> (Some [weekly])
       (Some ''2010-06-01,2010-06-20'') None [] =
   Some (Inr (),
     [BaseDelete [] ''event'' False,
      RawInput (delete_prompt_of weekly (prompt_str_of ''2010-06-01'' ''2010-06-20'')),
      GetEntries
        \<lparr> user = ''default'', text_query = None,
          start_min = Some ''2010-06-01'', start_max = None,
          singleevents = Some ''true'', orderby = Some ''starttime'',
          sortorder = Some ''ascend'', max_results = Some 100 \<rparr>
        (Some ''Standup''),
      Delete ''/calendar/feeds/default/private/full/abc123_20100607/63''])"
proof -
  have line: "raw_input demo_env p tr = (Inr ''3'', tr @ [RawInput p])" for p tr
    by (simp add: raw_input_def demo_env_def demo_respond_def)
  have three: "py_int ''3'' = Some 3"
    by (simp add: py_int_def str_strip_def is_space_def parse_digits_def is_digit_def
          digits_value_def)
  have stop: "prompt_selection demo_env p 3 tr = Some (Inr 3, tr)" for p tr
    by (subst prompt_selection.simps) simp
  have sel: "prompt_selection demo_env p 0 tr = Some (Inr 3, tr @ [RawInput p])" for p tr
    by (subst prompt_selection.simps) (simp add: line three stop)
  have sid: "series_id weekly = ''abc123''"
    by (simp add: series_id_def weekly_def)
  have tt: "title_text weekly = Some ''Standup''"
    by (simp add: weekly_def)
  have bdr: "batch_delete_recur demo_env (Some ''2010-06-01'') weekly None tr =
     (Inr (), tr @ [GetEntries
        \<lparr> user = ''default'', text_query = None,
          start_min = Some ''2010-06-01'', start_max = None,
          singleevents = Some ''true'', orderby = Some ''starttime'',
          sortorder = Some ''ascend'', max_results = Some 100 \<rparr>
        (Some ''Standup''),
      Delete ''/calendar/feeds/default/private/full/abc123_20100607/63''])" for tr
    by (simp add: batch_delete_recur_def get_events_def truthy_def GetEntries_call_def
          build_query_def get_start_and_end_def str_partition_def instance_of_def sid tt
          demo_env_def demo_respond_def occurrence_def foreign_occurrence_def one_off_def
          GDataService_Delete_def)
  have se: "single_events_of [weekly] = []"
    by (simp add: single_events_of_def weekly_def)
  have re: "recurring_events_of [weekly] = [weekly]"
    by (simp add: recurring_events_of_def weekly_def)
  have dbd: "delete_by_default demo_env = False"
    by (simp add: demo_env_def)
  have bd: "BaseServiceCL_Delete demo_env [] ''event'' False [] =
              (Inr (), [BaseDelete [] ''event'' False])"
    by (simp add: BaseServiceCL_Delete_def demo_env_def demo_respond_def)
  have gse: "get_start_and_end demo_env (Some ''2010-06-01,2010-06-20'') =
               (''2010-06-01'', Some ''2010-06-20'')"
    by (simp add: get_start_and_end_def truthy_def str_partition_def)
  show ?thesis
    by (simp add: delete_events_def Let_def se re dbd bd gse truthy_def
          delete_recurring_event_def sel apply_selection_def bdr)
qed

end
